theory Spec2Isabelle
  imports Complex_Main
begin

section \<open>Strings and numbers of the host language\<close>

text \<open>
  A string of the program is a list of code units. The code units modelled are those
  below 256, which covers every character the grammar of formulas looks at (the marker,
  parentheses, commas, letters, digits, signs) and the white space of that range.

  A number of the program is a binary64 float. The model keeps the shape of that type
  (a not-a-number value, the two infinities, finite values) and makes the finite values
  exact rationals: rounding, overflow to an infinity, underflow and the sign of zero are
  left out. Whether a string converts to not-a-number does not depend on rounding.
\<close>

datatype number = NaN | Fin rat | PosInfinity | NegInfinity

definition isNaN :: "number \<Rightarrow> bool" where
  "isNaN n \<longleftrightarrow> n = NaN"

fun negate :: "number \<Rightarrow> number" where
  "negate NaN = NaN"
| "negate (Fin a) = Fin (- a)"
| "negate PosInfinity = NegInfinity"
| "negate NegInfinity = PosInfinity"

fun add :: "number \<Rightarrow> number \<Rightarrow> number" where
  "add NaN _ = NaN"
| "add _ NaN = NaN"
| "add (Fin a) (Fin b) = Fin (a + b)"
| "add PosInfinity NegInfinity = NaN"
| "add NegInfinity PosInfinity = NaN"
| "add PosInfinity _ = PosInfinity"
| "add NegInfinity _ = NegInfinity"
| "add (Fin a) b = b"

fun mul :: "number \<Rightarrow> number \<Rightarrow> number" where
  "mul NaN _ = NaN"
| "mul _ NaN = NaN"
| "mul (Fin a) (Fin b) = Fin (a * b)"
| "mul (Fin a) PosInfinity = (if a = 0 then NaN else if 0 < a then PosInfinity else NegInfinity)"
| "mul (Fin a) NegInfinity = (if a = 0 then NaN else if 0 < a then NegInfinity else PosInfinity)"
| "mul PosInfinity (Fin b) = (if b = 0 then NaN else if 0 < b then PosInfinity else NegInfinity)"
| "mul NegInfinity (Fin b) = (if b = 0 then NaN else if 0 < b then NegInfinity else PosInfinity)"
| "mul PosInfinity PosInfinity = PosInfinity"
| "mul PosInfinity NegInfinity = NegInfinity"
| "mul NegInfinity PosInfinity = NegInfinity"
| "mul NegInfinity NegInfinity = PosInfinity"

definition isWhiteSpace :: "char \<Rightarrow> bool" where
  "isWhiteSpace c \<longleftrightarrow>
     c \<in> {CHR 0x09, CHR 0x0A, CHR 0x0B, CHR 0x0C, CHR 0x0D, CHR 0x20, CHR 0xA0}"

definition trim :: "string \<Rightarrow> string" where
  "trim s = rev (dropWhile isWhiteSpace (rev (dropWhile isWhiteSpace s)))"

text \<open>Value of a digit in a base up to 16, if the character is one.\<close>

definition digitOf :: "nat \<Rightarrow> char \<Rightarrow> nat option" where
  "digitOf base c =
     (let n = (of_char c :: nat);
          v = (if 48 \<le> n \<and> n \<le> 57 then Some (n - 48)
               else if 65 \<le> n \<and> n \<le> 70 then Some (n - 55)
               else if 97 \<le> n \<and> n \<le> 102 then Some (n - 87)
               else None)
      in case v of None \<Rightarrow> None | Some d \<Rightarrow> if d < base then Some d else None)"

text \<open>A non-empty run of digits of the base, read most significant digit first.\<close>

fun digitsFrom :: "nat \<Rightarrow> nat \<Rightarrow> string \<Rightarrow> nat option" where
  "digitsFrom base acc [] = Some acc"
| "digitsFrom base acc (c # cs) =
     (case digitOf base c of None \<Rightarrow> None | Some d \<Rightarrow> digitsFrom base (base * acc + d) cs)"

definition digits :: "nat \<Rightarrow> string \<Rightarrow> nat option" where
  "digits base s = (if s = [] then None else digitsFrom base 0 s)"

definition isDigit :: "char \<Rightarrow> bool" where
  "isDigit c \<longleftrightarrow> digitOf 10 c \<noteq> None"

definition pow10 :: "int \<Rightarrow> rat" where
  "pow10 k = (if 0 \<le> k then 10 ^ nat k else 1 / 10 ^ nat (- k))"

text \<open>
  The conversion of a string to a number (the function \<open>Number\<close> applied to a string):
  white space is stripped; the empty string is 0; then a binary, octal or hexadecimal
  integer with its prefix and no sign, or a decimal literal with an optional sign:
  \<open>Infinity\<close>, or digits with an optional fraction and an optional exponent. Anything
  else is not-a-number.
\<close>

definition nonDecimalIntegerLiteral :: "string \<Rightarrow> nat option" where
  "nonDecimalIntegerLiteral s =
     (case s of
        c0 # c1 # r \<Rightarrow>
          if c0 \<noteq> CHR ''0'' then None
          else if c1 = CHR ''x'' \<or> c1 = CHR ''X'' then digits 16 r
          else if c1 = CHR ''o'' \<or> c1 = CHR ''O'' then digits 8 r
          else if c1 = CHR ''b'' \<or> c1 = CHR ''B'' then digits 2 r
          else None
      | _ \<Rightarrow> None)"

definition exponentPart :: "string \<Rightarrow> int option" where
  "exponentPart s =
     (case s of
        [] \<Rightarrow> Some 0
      | c # r \<Rightarrow>
          if c = CHR ''e'' \<or> c = CHR ''E'' then
            (case r of
               [] \<Rightarrow> None
             | d # r' \<Rightarrow>
                 if d = CHR ''+'' then map_option int (digits 10 r')
                 else if d = CHR ''-'' then map_option (\<lambda>n. - int n) (digits 10 r')
                 else map_option int (digits 10 r))
          else None)"

definition strUnsignedDecimalLiteral :: "string \<Rightarrow> number" where
  "strUnsignedDecimalLiteral s =
     (if s = ''Infinity'' then PosInfinity
      else
        let ip = takeWhile isDigit s;
            r1 = dropWhile isDigit s;
            dot = (r1 \<noteq> [] \<and> hd r1 = CHR ''.'');
            fp = (if dot then takeWhile isDigit (tl r1) else []);
            r2 = (if dot then dropWhile isDigit (tl r1) else r1)
        in if ip = [] \<and> fp = [] then NaN
           else case (digitsFrom 10 0 (ip @ fp), exponentPart r2) of
                  (Some m, Some e) \<Rightarrow> Fin (of_nat m * pow10 (e - int (length fp)))
                | _ \<Rightarrow> NaN)"

definition strDecimalLiteral :: "string \<Rightarrow> number" where
  "strDecimalLiteral s =
     (case s of
        [] \<Rightarrow> NaN
      | c # r \<Rightarrow>
          if c = CHR ''+'' then strUnsignedDecimalLiteral r
          else if c = CHR ''-'' then negate (strUnsignedDecimalLiteral r)
          else strUnsignedDecimalLiteral s)"

definition Number :: "string \<Rightarrow> number" where
  "Number str =
     (let s = trim str
      in if s = [] then Fin 0
         else case nonDecimalIntegerLiteral s of
                Some n \<Rightarrow> Fin (of_nat n)
              | None \<Rightarrow> strDecimalLiteral s)"

text \<open>
  Case conversion, on the letters A to Z and a to z. \<open>toUpperCase\<close> is only ever applied
  to the one letter the reference pattern has matched. \<open>toLowerCase\<close> is applied to any
  text before the parenthesis and its result is compared with \<open>sum\<close> and \<open>product\<close>; no
  other code unit is mapped to one of their letters, so leaving the others in place does
  not change the comparison.
\<close>

definition upperLetters :: string where
  "upperLetters = ''ABCDEFGHIJKLMNOPQRSTUVWXYZ''"

definition lowerLetters :: string where
  "lowerLetters = ''abcdefghijklmnopqrstuvwxyz''"

definition isAsciiLetter :: "char \<Rightarrow> bool" where
  "isAsciiLetter c \<longleftrightarrow> c \<in> set upperLetters \<or> c \<in> set lowerLetters"

definition toUpperChar :: "char \<Rightarrow> char" where
  "toUpperChar c = (case map_of (zip lowerLetters upperLetters) c of Some d \<Rightarrow> d | None \<Rightarrow> c)"

definition toUpperCase :: "string \<Rightarrow> string" where
  "toUpperCase s = map toUpperChar s"

definition toLowerChar :: "char \<Rightarrow> char" where
  "toLowerChar c = (case map_of (zip upperLetters lowerLetters) c of Some d \<Rightarrow> d | None \<Rightarrow> c)"

definition toLowerCase :: "string \<Rightarrow> string" where
  "toLowerCase s = map toLowerChar s"

text \<open>\<open>s.slice(a, b)\<close> and \<open>s.slice(a)\<close> for indices that are not negative.\<close>

definition slice :: "string \<Rightarrow> nat \<Rightarrow> nat \<Rightarrow> string" where
  "slice s a b = take (b - a) (drop a s)"

definition sliceFrom :: "string \<Rightarrow> nat \<Rightarrow> string" where
  "sliceFrom s a = drop a s"

text \<open>\<open>s.indexOf(c)\<close> for a one-character needle: \<open>None\<close> stands for -1.\<close>

fun indexOf :: "string \<Rightarrow> char \<Rightarrow> nat option" where
  "indexOf [] c = None"
| "indexOf (d # ds) c = (if d = c then Some 0 else map_option Suc (indexOf ds c))"

text \<open>\<open>s.split(c)\<close>: the pieces between the separators; never an empty list.\<close>

fun split :: "string \<Rightarrow> char \<Rightarrow> string list" where
  "split [] c = [[]]"
| "split (d # ds) c =
     (if d = c then [] # split ds c
      else case split ds c of p # ps \<Rightarrow> (d # p) # ps | [] \<Rightarrow> [[d]])"


section \<open>The data model\<close>

record Address =
  x :: nat
  y :: nat

record Cell =
  raw :: string

text \<open>
  What reading \<open>state[y][x]\<close> can give: \<open>undefined\<close> beyond the end of a row (or at a
  hole), \<open>null\<close>, or a cell. A cell's reference to the grid that holds it is the state
  passed to the functions below.
\<close>

datatype slot = Undefined | Null | Occupied Cell

type_synonym State = "slot list list"

datatype error = TypeError | RangeError

text \<open>
  The outcome of a computation: it returns, it throws, or the recursion is cut off
  (\<open>OutOfFuel\<close>, for the functions that follow references and need not terminate).
\<close>

datatype 'a outcome = OutOfFuel | Throw error | Return 'a

text \<open>
  The program runs on a stack that allows some number of nested calls and no more. The
  fuel of the recursive functions below is the number of nested calls they may make, so
  a run with the number the stack allows as fuel is the run of the program, and running
  out of fuel there is the overflow of the stack: the program throws a RangeError, which
  nothing catches.
\<close>

definition onStack :: "'a outcome \<Rightarrow> 'a outcome" where
  "onStack r = (case r of OutOfFuel \<Rightarrow> Throw RangeError | Throw e \<Rightarrow> Throw e | Return v \<Rightarrow> Return v)"

text \<open>Reading a property of \<open>undefined\<close> (a row beyond the last one) throws.\<close>

definition lookupCell :: "State \<Rightarrow> Address \<Rightarrow> slot outcome" where
  "lookupCell state addr =
     (if y addr < length state then
        (let row = state ! y addr
         in if x addr < length row then Return (row ! x addr) else Return Undefined)
      else Throw TypeError)"

text \<open>Writing beyond the end of a row extends it, leaving holes.\<close>

definition insertCell :: "State \<Rightarrow> Address \<Rightarrow> Cell \<Rightarrow> State outcome" where
  "insertCell state addr cell =
     (if y addr < length state then
        (let row = state ! y addr;
             row' = (if x addr < length row then row[x addr := Occupied cell]
                     else row @ replicate (x addr - length row) Undefined @ [Occupied cell])
         in Return (state[y addr := row']))
      else Throw TypeError)"

datatype NumericArgs = ConstArg (num: number) | RefArg (address: Address)

datatype CellParsed =
    Const
  | Invalid
  | Ref Address
  | Sum "NumericArgs list"
  | Product "NumericArgs list"

definition eqAddress :: "Address \<Rightarrow> Address \<Rightarrow> bool" where
  "eqAddress a b \<longleftrightarrow> x a = x b \<and> y a = y b"

fun isRefArg :: "NumericArgs \<Rightarrow> bool" where
  "isRefArg (RefArg _) = True"
| "isRefArg (ConstArg _) = False"

fun dependencies :: "CellParsed \<Rightarrow> Address list" where
  "dependencies Const = []"
| "dependencies Invalid = []"
| "dependencies (Ref a) = [a]"
| "dependencies (Sum args) = map address (filter isRefArg args)"
| "dependencies (Product args) = map address (filter isRefArg args)"

section \<open>The parser\<close>

text \<open>The alphabet: the 26 one-letter strings from A to Z, in order.\<close>

definition alphabet :: "string list" where
  "alphabet = map (\<lambda>c. [c]) upperLetters"

definition alphabetToIdx :: "string \<Rightarrow> nat option" where
  "alphabetToIdx = map_of (zip alphabet [0 ..< length alphabet])"

text \<open>
  The pattern of a reference is anchored at both ends and case-insensitive: one letter of
  A to Z, then one or more decimal digits. The row is the number the digits denote
  (\<open>Number\<close> of the digits, see \<open>Number_digits\<close> below), kept exact: the program rounds a
  row beyond 2 to the power 53, which is far beyond the rows of any grid. The table has
  an index for every letter the pattern lets through; the \<open>None\<close> branch of its lookup is
  there for totality only.
\<close>

definition parseRef :: "string \<Rightarrow> Address option" where
  "parseRef argTrimmed =
     (case argTrimmed of
        [] \<Rightarrow> None
      | c # ds \<Rightarrow>
          if isAsciiLetter c then
            (case digits 10 ds of
               None \<Rightarrow> None
             | Some n \<Rightarrow>
                 (case alphabetToIdx (toUpperCase [c]) of
                    None \<Rightarrow> None
                  | Some i \<Rightarrow> Some \<lparr>x = i, y = n\<rparr>))
          else None)"

text \<open>The loop of \<open>parseNumericArgs\<close>, with the arguments collected so far.\<close>

fun parseNumericArgsLoop :: "string list \<Rightarrow> NumericArgs list \<Rightarrow> NumericArgs list option" where
  "parseNumericArgsLoop [] args = Some args"
| "parseNumericArgsLoop (arg # rest) args =
     (let argTrimmed = trim arg
      in case parseRef argTrimmed of
           Some a \<Rightarrow> parseNumericArgsLoop rest (args @ [RefArg a])
         | None \<Rightarrow>
             (let n = Number argTrimmed
              in if \<not> isNaN n then parseNumericArgsLoop rest (args @ [ConstArg n])
                 else None))"

definition parseNumericArgs :: "string list \<Rightarrow> NumericArgs list option" where
  "parseNumericArgs argsStrings =
     (case parseNumericArgsLoop argsStrings [] of
        None \<Rightarrow> None
      | Some args \<Rightarrow> if length args = 0 then None else Some args)"

text \<open>
  The parser. The program tests the last character of \<open>argsWithParens\<close> twice in a row;
  the second test cannot fail after the first and is written once here.
\<close>

definition parseCellContents :: "string \<Rightarrow> CellParsed" where
  "parseCellContents v =
     (let val = trim v
      in if val = [] \<or> hd val \<noteq> CHR ''='' then Const
         else
           (case indexOf val CHR ''('' of
              None \<Rightarrow>
                (case parseRef (trim (sliceFrom val 1)) of
                   Some a \<Rightarrow> Ref a
                 | None \<Rightarrow> Invalid)
            | Some openParenPos \<Rightarrow>
                (let func = toLowerCase (slice val 1 openParenPos);
                     argsWithParens = sliceFrom val openParenPos
                 in if argsWithParens = [] \<or> last argsWithParens \<noteq> CHR '')'' then Invalid
                    else
                      (let argsStrings =
                             split (slice argsWithParens 1 (length argsWithParens - 1)) CHR '',''
                       in if func = ''sum'' \<or> func = ''product'' then
                            (case parseNumericArgs argsStrings of
                               None \<Rightarrow> Invalid
                             | Some args \<Rightarrow> if func = ''sum'' then Sum args else Product args)
                          else Invalid))))"


text \<open>The getters \<open>parsed\<close> and \<open>dependencies\<close> of a cell.\<close>

definition parsed :: "Cell \<Rightarrow> CellParsed" where
  "parsed cell = parseCellContents (raw cell)"

definition cellDependencies :: "Cell \<Rightarrow> Address list" where
  "cellDependencies cell = dependencies (parsed cell)"

section \<open>The evaluator\<close>

record 'a Monoid =
  emptyM :: 'a
  concatM :: "'a \<Rightarrow> 'a \<Rightarrow> 'a"

definition sumM :: "number Monoid" where
  "sumM = \<lparr>emptyM = Fin 0, concatM = add\<rparr>"

definition productM :: "number Monoid" where
  "productM = \<lparr>emptyM = Fin 1, concatM = mul\<rparr>"

text \<open>What a cell displays: a text or a number.\<close>

datatype display = Text string | Numeric number

text \<open>The values that \<open>||\<close> replaces: the empty text, zero and not-a-number.\<close>

fun falsy :: "display \<Rightarrow> bool" where
  "falsy (Text t) = (t = [])"
| "falsy (Numeric n) = (n = NaN \<or> n = Fin 0)"

definition asNumber :: "string \<Rightarrow> number \<Rightarrow> number" where
  "asNumber s def = (let n = Number s in if isNaN n then def else n)"

text \<open>
  The getter \<open>value\<close> of a cell, \<open>readNumber\<close> and \<open>evalNumericFunction\<close> with its loop
  call each other. The getter follows references to other cells, one nested call of the
  getter for each cell of a chain of references, with no bound of its own on the depth;
  on a cyclic grid it does not terminate. So it takes fuel: one unit for each nested
  call of the getter. With the fuel the stack allows, \<open>OutOfFuel\<close> is the RangeError of
  the program (\<open>onStack\<close>). The loop carries the result so far in \<open>res\<close>.
\<close>

function (sequential) cellValue :: "nat \<Rightarrow> State \<Rightarrow> Cell \<Rightarrow> display outcome"
and readNumber :: "nat \<Rightarrow> State \<Rightarrow> slot \<Rightarrow> number \<Rightarrow> number outcome"
and evalNumericFunction ::
  "nat \<Rightarrow> State \<Rightarrow> NumericArgs list \<Rightarrow> number Monoid \<Rightarrow> number outcome"
and evalLoop :: "nat \<Rightarrow> State \<Rightarrow> NumericArgs list \<Rightarrow> number Monoid \<Rightarrow> number \<Rightarrow> number outcome"
where
  "cellValue 0 state cell = OutOfFuel"
| "cellValue (Suc n) state cell =
     (case parsed cell of
        Const \<Rightarrow> Return (Text (raw cell))
      | Invalid \<Rightarrow> Return (Text ''INVALID'')
      | Ref a \<Rightarrow>
          (case lookupCell state a of
             OutOfFuel \<Rightarrow> OutOfFuel
           | Throw e \<Rightarrow> Throw e
           | Return Undefined \<Rightarrow> Return (Text [])
           | Return Null \<Rightarrow> Return (Text [])
           | Return (Occupied c) \<Rightarrow>
               (case cellValue n state c of
                  OutOfFuel \<Rightarrow> OutOfFuel
                | Throw e \<Rightarrow> Throw e
                | Return v \<Rightarrow> Return (if falsy v then Text [] else v)))
      | Sum args \<Rightarrow>
          (case evalNumericFunction n state args sumM of
             OutOfFuel \<Rightarrow> OutOfFuel
           | Throw e \<Rightarrow> Throw e
           | Return r \<Rightarrow> Return (Numeric r))
      | Product args \<Rightarrow>
          (case evalNumericFunction n state args productM of
             OutOfFuel \<Rightarrow> OutOfFuel
           | Throw e \<Rightarrow> Throw e
           | Return r \<Rightarrow> Return (Numeric r)))"
| "readNumber n state Undefined def = Return def"
| "readNumber n state Null def = Return def"
| "readNumber n state (Occupied c) def =
     (case cellValue n state c of
        OutOfFuel \<Rightarrow> OutOfFuel
      | Throw e \<Rightarrow> Throw e
      | Return (Numeric v) \<Rightarrow> Return v
      | Return (Text t) \<Rightarrow> Return (asNumber t def))"
| "evalNumericFunction n state args m = evalLoop n state args m (emptyM m)"
| "evalLoop n state [] m res = Return res"
| "evalLoop n state (arg # rest) m res =
     (case arg of
        ConstArg v \<Rightarrow> evalLoop n state rest m (concatM m res v)
      | RefArg a \<Rightarrow>
          (case lookupCell state a of
             OutOfFuel \<Rightarrow> OutOfFuel
           | Throw e \<Rightarrow> Throw e
           | Return cell \<Rightarrow>
               (case readNumber n state cell (emptyM m) of
                  OutOfFuel \<Rightarrow> OutOfFuel
                | Throw e \<Rightarrow> Throw e
                | Return v \<Rightarrow> evalLoop n state rest m (concatM m res v))))"
  by pat_completeness auto

text \<open>
  Termination: the fuel decreases from a cell to what its formula reads; at equal fuel,
  \<open>evalNumericFunction\<close> calls its loop, the loop shortens its list and calls
  \<open>readNumber\<close>, which calls the getter.
\<close>

termination
  by (relation "inv_image (less_than <*lex*> less_than <*lex*> less_than)
        (\<lambda>p. case p of
           Inl (Inl (n, state, cell)) \<Rightarrow> (n, 0, 0)
         | Inl (Inr (n, state, cell, def)) \<Rightarrow> (n, 1, 0)
         | Inr (Inl (n, state, args, m)) \<Rightarrow> (n, 3, 0)
         | Inr (Inr (n, state, args, m, res)) \<Rightarrow> (n, 2, length args))") auto

section \<open>The grid, the cycle check and the edit\<close>

definition makeMatrix :: "nat \<Rightarrow> nat \<Rightarrow> State" where
  "makeMatrix cols rows = replicate rows (replicate cols (Occupied \<lparr>raw = []\<rparr>))"

text \<open>
  \<open>xs.some(f)\<close> for a callback that may throw or not return: it stops at the first
  element for which the callback returns true, throws or runs out of fuel.
\<close>

fun some :: "('a \<Rightarrow> bool outcome) \<Rightarrow> 'a list \<Rightarrow> bool outcome" where
  "some f [] = Return False"
| "some f (a # as) =
     (case f a of
        OutOfFuel \<Rightarrow> OutOfFuel
      | Throw e \<Rightarrow> Throw e
      | Return b \<Rightarrow> if b then Return True else some f as)"

text \<open>
  The callback \<open>hasLoop\<close> of the cycle check, for the edited address \<open>addr\<close>. It follows
  the dependencies of the cells of the grid as they are, one nested call for each cell
  of a chain of references, with no bound of its own on the depth. It takes one unit of
  fuel for each nested call; with the fuel the stack allows, \<open>OutOfFuel\<close> is the
  RangeError of the program (\<open>onStack\<close>).
\<close>

fun hasLoop :: "nat \<Rightarrow> State \<Rightarrow> Address \<Rightarrow> Address \<Rightarrow> bool outcome" where
  "hasLoop 0 state addr depAddress = OutOfFuel"
| "hasLoop (Suc n) state addr depAddress =
     (if eqAddress addr depAddress then Return True
      else
        (case lookupCell state depAddress of
           OutOfFuel \<Rightarrow> OutOfFuel
         | Throw e \<Rightarrow> Throw e
         | Return Undefined \<Rightarrow> Return False
         | Return Null \<Rightarrow> Return False
         | Return (Occupied depCel) \<Rightarrow>
             some (hasLoop n state addr) (cellDependencies depCel)))"

definition hasDependencyCycle :: "nat \<Rightarrow> State \<Rightarrow> Address \<Rightarrow> string \<Rightarrow> bool outcome" where
  "hasDependencyCycle n state addr v =
     some (hasLoop n state addr) (dependencies (parseCellContents v))"

definition setRaw :: "Cell \<Rightarrow> string \<Rightarrow> Cell" where
  "setRaw cell v = cell\<lparr>raw := v\<rparr>"

text \<open>
  A cell object is held by exactly one slot (\<open>makeMatrix\<close> and \<open>newValue\<close> create a fresh
  one for each), so the update of a cell in place is an update of its slot. The branch
  for a slot that is \<open>null\<close> inserts; on \<open>undefined\<close> the call of \<open>setRaw\<close> throws.
\<close>

definition newValue :: "State \<Rightarrow> Address \<Rightarrow> string \<Rightarrow> State outcome" where
  "newValue state addr v =
     (case lookupCell state addr of
        OutOfFuel \<Rightarrow> OutOfFuel
      | Throw e \<Rightarrow> Throw e
      | Return Null \<Rightarrow> insertCell state addr \<lparr>raw = v\<rparr>
      | Return Undefined \<Rightarrow> Throw TypeError
      | Return (Occupied cell) \<Rightarrow>
          Return (state[y addr := (state ! y addr)[x addr := Occupied (setRaw cell v)]]))"

text \<open>
  The handler \<open>onBlur\<close> of the input box, which commits an edit. It returns whether the
  alert was shown, and the grid afterwards; when it throws, nothing has been written. The
  text being edited is the argument \<open>edit\<close>; the rest of the state of the input box is
  not part of the grid and is left out.
\<close>

definition onBlur :: "nat \<Rightarrow> State \<Rightarrow> Address \<Rightarrow> string \<Rightarrow> (bool \<times> State) outcome" where
  "onBlur n matrix addr edit =
     (case hasDependencyCycle n matrix addr edit of
        OutOfFuel \<Rightarrow> OutOfFuel
      | Throw e \<Rightarrow> Throw e
      | Return b \<Rightarrow>
          if b then Return (True, matrix)
          else
            (case newValue matrix addr edit of
               OutOfFuel \<Rightarrow> OutOfFuel
             | Throw e \<Rightarrow> Throw e
             | Return matrix' \<Rightarrow> Return (False, matrix')))"


section \<open>The dependency graph and the grids the program reaches\<close>

text \<open>
  The edges of the dependency graph of a grid: from the address of a cell to each address
  its formula refers to.
\<close>

definition dependsOn :: "State \<Rightarrow> (Address \<times> Address) set" where
  "dependsOn state =
     {(a, d). \<exists>cell. lookupCell state a = Return (Occupied cell) \<and> d \<in> set (cellDependencies cell)}"

text \<open>The addresses of the grid that hold a cell.\<close>

definition occupied :: "State \<Rightarrow> Address set" where
  "occupied state = {a. \<exists>cell. lookupCell state a = Return (Occupied cell)}"

text \<open>Every row a formula of the grid refers to is a row of the grid.\<close>

definition rowsInRange :: "State \<Rightarrow> bool" where
  "rowsInRange state \<longleftrightarrow> (\<forall>(a, d) \<in> dependsOn state. y d < length state)"

text \<open>Every slot of a grid of the given size holds a cell.\<close>

definition allOccupied :: "nat \<Rightarrow> nat \<Rightarrow> State \<Rightarrow> bool" where
  "allOccupied cols rows state \<longleftrightarrow>
     length state = rows \<and>
     (\<forall>row \<in> set state. length row = cols \<and> (\<forall>s \<in> set row. \<exists>cell. s = Occupied cell))"

text \<open>
  The grids that the operations produce from the initial one: \<open>newValue\<close> called on its
  own, or the edit handler, at any address and with any text.
\<close>

inductive produced :: "nat \<Rightarrow> nat \<Rightarrow> State \<Rightarrow> bool" for cols rows where
  produced_init: "produced cols rows (makeMatrix cols rows)"
| produced_newValue:
    "produced cols rows state \<Longrightarrow> newValue state addr v = Return state' \<Longrightarrow>
     produced cols rows state'"
| produced_onBlur:
    "produced cols rows state \<Longrightarrow> onBlur n state addr v = Return (b, state') \<Longrightarrow>
     produced cols rows state'"

text \<open>
  The committed grids: those the edit handler alone produces from the initial grid. The
  handler is the only caller of \<open>newValue\<close> in the program.
\<close>

inductive committed :: "nat \<Rightarrow> nat \<Rightarrow> State \<Rightarrow> bool" for cols rows where
  committed_init: "committed cols rows (makeMatrix cols rows)"
| committed_onBlur:
    "committed cols rows state \<Longrightarrow> onBlur n state addr v = Return (b, state') \<Longrightarrow>
     committed cols rows state'"


text \<open>
  Examples for the theorems below: the initial grid of the program, 26 columns and 1000
  rows, after a text has been written into A1 (column 0, row 1).
\<close>

definition gridWithA1 :: "string \<Rightarrow> State" where
  "gridWithA1 t = (makeMatrix 26 1000)[1 := (makeMatrix 26 1000 ! 1)[0 := Occupied \<lparr>raw = t\<rparr>]]"

text \<open>
  A chain of references on that grid. The cells are taken column by column (\<open>cellAt\<close>:
  A0 to A999, then B0 and so on); \<open>refText\<close> is the text of a reference to an address,
  with the row in decimal. \<open>chainGrid m\<close> is the initial grid after each of the first
  \<open>m\<close> cells has been given, in that order, the reference to the next one.
\<close>

definition digitChar :: "nat \<Rightarrow> char" where
  "digitChar d = ''0123456789'' ! d"

fun showNat :: "nat \<Rightarrow> string" where
  "showNat n = (if n < 10 then [digitChar n] else showNat (n div 10) @ [digitChar (n mod 10)])"

definition refText :: "Address \<Rightarrow> string" where
  "refText a = CHR ''='' # (upperLetters ! x a) # showNat (y a)"

definition cellAt :: "nat \<Rightarrow> Address" where
  "cellAt k = \<lparr>x = k div 1000, y = k mod 1000\<rparr>"

fun chainGrid :: "nat \<Rightarrow> State" where
  "chainGrid 0 = makeMatrix 26 1000"
| "chainGrid (Suc m) =
     (case newValue (chainGrid m) (cellAt m) (refText (cellAt (Suc m))) of
        Return state \<Rightarrow> state
      | _ \<Rightarrow> chainGrid m)"

section \<open>Properties of the parser\<close>

lemma split_not_Nil: "split s c \<noteq> []"
  by (induction s) (auto split: list.splits)

lemma parseNumericArgsLoop_length:
  "parseNumericArgsLoop ss acc = Some args \<Longrightarrow> length args = length acc + length ss"
  by (induction ss arbitrary: acc) (auto simp: Let_def split: option.splits if_splits)



lemma parseNumericArgs_length_test_dead:
  "parseNumericArgsLoop (split s c) [] \<noteq> Some []"
proof
  assume "parseNumericArgsLoop (split s c) [] = Some []"
  then have "length (split s c) = 0" by (auto dest: parseNumericArgsLoop_length)
  then show False using split_not_Nil[of s c] by simp
qed

text \<open>
  C3: a call with nothing between the parentheses should parse as invalid. It does not:
  the text between the parentheses of \<open>=SUM()\<close> splits into one empty piece, the empty
  piece converts to the number 0, and the term is a sum of the constant 0.
\<close>

theorem sum_of_no_arguments_parses:
  "parseCellContents ''=SUM()'' = Sum [ConstArg (Fin 0)]"
  by code_simp

lemma digitsFrom_Some_iff: "(\<exists>n. digitsFrom 10 acc ds = Some n) \<longleftrightarrow> list_all isDigit ds"
  by (induction ds arbitrary: acc) (auto simp: isDigit_def split: option.splits)

lemma digits_Some_iff: "(\<exists>n. digits 10 ds = Some n) \<longleftrightarrow> ds \<noteq> [] \<and> list_all isDigit ds"
  using digitsFrom_Some_iff[of 0 ds] by (auto simp: digits_def)

lemma letter_has_index:
  "isAsciiLetter c \<Longrightarrow> \<exists>i. alphabetToIdx (toUpperCase [c]) = Some i \<and> i < 26"
  unfolding isAsciiLetter_def upperLetters_def lowerLetters_def
  by (auto simp: alphabetToIdx_def alphabet_def toUpperCase_def toUpperChar_def
      upperLetters_def lowerLetters_def upt_rec)

lemma isDigit_code: "isDigit c \<longleftrightarrow> 48 \<le> (of_char c :: nat) \<and> (of_char c :: nat) \<le> 57"
  by (auto simp: isDigit_def digitOf_def Let_def)

lemma digit_not_special:
  assumes "isDigit c"
  shows "\<not> isWhiteSpace c" and "c \<notin> set ''xXoObB+-I''"
  using assms by (auto simp: isDigit_code isWhiteSpace_def)

lemma trim_digits:
  assumes "list_all isDigit ds"
  shows "trim ds = ds"
proof (cases "ds = []")
  case True
  then show ?thesis by (simp add: trim_def)
next
  case False
  with assms have "isDigit (hd ds)" and "isDigit (last ds)"
    by (auto simp: list_all_iff)
  then have h: "\<not> isWhiteSpace (hd ds)" and l: "\<not> isWhiteSpace (hd (rev ds))"
    using False by (auto simp: hd_rev dest: digit_not_special(1))
  from h have "dropWhile isWhiteSpace ds = ds" by (simp add: dropWhile_eq_self_iff)
  moreover from l have "dropWhile isWhiteSpace (rev ds) = rev ds"
    by (simp add: dropWhile_eq_self_iff)
  ultimately show ?thesis by (simp add: trim_def)
qed

text \<open>
  The row of a reference: on a run of decimal digits the conversion to a number gives the
  number that \<open>digits\<close> computes.
\<close>

lemma Number_digits:
  assumes "digits 10 ds = Some n"
  shows "Number ds = Fin (of_nat n)"
proof -
  from assms have ne: "ds \<noteq> []" and all: "list_all isDigit ds"
    using digits_Some_iff[of ds] by auto
  from assms ne have df: "digitsFrom 10 0 ds = Some n" by (simp add: digits_def)
  from ne obtain c r where ds: "ds = c # r" by (cases ds) auto
  with all have c: "isDigit c" by simp
  have nd: "nonDecimalIntegerLiteral ds = None"
  proof (cases r)
    case Nil
    with ds show ?thesis by (simp add: nonDecimalIntegerLiteral_def)
  next
    case (Cons c1 r')
    with all ds have "isDigit c1" by simp
    from digit_not_special(2)[OF this] Cons ds show ?thesis
      by (simp add: nonDecimalIntegerLiteral_def)
  qed
  have inf: "ds \<noteq> ''Infinity''" using ds digit_not_special(2)[OF c] by auto
  have tw: "takeWhile isDigit ds = ds" and dw: "dropWhile isDigit ds = []"
    using all by (simp_all add: list_all_iff)
  have "strUnsignedDecimalLiteral ds = Fin (of_nat n)"
    using inf ne df by (simp add: strUnsignedDecimalLiteral_def tw dw exponentPart_def pow10_def)
  moreover have "strDecimalLiteral ds = strUnsignedDecimalLiteral ds"
    using ds digit_not_special(2)[OF c] by (simp add: strDecimalLiteral_def)
  ultimately show ?thesis using ne nd by (simp add: Number_def trim_digits[OF all])
qed

lemma parseRef_address:
  assumes "parseRef (c # ds) = Some a"
  shows "alphabetToIdx (toUpperCase [c]) = Some (x a) \<and> Number ds = Fin (of_nat (y a))"
proof -
  from assms obtain n i where "digits 10 ds = Some n" "alphabetToIdx (toUpperCase [c]) = Some i"
    and "a = \<lparr>x = i, y = n\<rparr>"
    by (auto simp: parseRef_def split: if_splits option.splits)
  then show ?thesis using Number_digits by simp
qed

text \<open>
  C4, as the claim has it (one or more letters): false, two letters and a digit are not
  a reference.
\<close>

theorem two_letters_not_a_reference: "parseRef ''AA1'' = None"
  by code_simp

text \<open>
  C4, amended: the texts that parse as a reference are exactly those made of one letter
  of A to Z, in either case, followed by one or more decimal digits, with no condition on
  leading zeros; every letter has a column.
\<close>

theorem parseRef_language:
  "(\<exists>a. parseRef s = Some a) \<longleftrightarrow>
   (\<exists>c ds. s = c # ds \<and> isAsciiLetter c \<and> ds \<noteq> [] \<and> list_all isDigit ds)"
proof
  assume "\<exists>a. parseRef s = Some a"
  then obtain a where a: "parseRef s = Some a" ..
  then obtain c ds where s: "s = c # ds" by (cases s) (auto simp: parseRef_def)
  from a s have "isAsciiLetter c" and "\<exists>n. digits 10 ds = Some n"
    by (auto simp: parseRef_def split: if_splits option.splits)
  with s show "\<exists>c ds. s = c # ds \<and> isAsciiLetter c \<and> ds \<noteq> [] \<and> list_all isDigit ds"
    using digits_Some_iff[of ds] by blast
next
  assume "\<exists>c ds. s = c # ds \<and> isAsciiLetter c \<and> ds \<noteq> [] \<and> list_all isDigit ds"
  then obtain c ds where s: "s = c # ds" and c: "isAsciiLetter c"
    and ds: "ds \<noteq> [] \<and> list_all isDigit ds" by blast
  from ds obtain n where "digits 10 ds = Some n" using digits_Some_iff[of ds] by blast
  moreover from c obtain i where "alphabetToIdx (toUpperCase [c]) = Some i"
    using letter_has_index by blast
  ultimately show "\<exists>a. parseRef s = Some a" using s c by (simp add: parseRef_def)
qed

theorem parseRef_language_witness:
  "(\<exists>a. parseRef ''b007'' = Some a) \<and> isAsciiLetter CHR ''b'' \<and> list_all isDigit ''007''"
proof -
  have l: "isAsciiLetter CHR ''b''"
    by (simp add: isAsciiLetter_def lowerLetters_def)
  have d: "list_all isDigit ''007''"
    by (simp add: isDigit_def digitOf_def)
  from l d have "\<exists>c ds. ''b007'' = c # ds \<and> isAsciiLetter c \<and> ds \<noteq> [] \<and> list_all isDigit ds"
    by simp
  then have "\<exists>a. parseRef ''b007'' = Some a"
    using parseRef_language[of "''b007''"] by blast
  with l d show ?thesis by blast
qed

section \<open>Fuel\<close>

text \<open>
  An outcome other than \<open>OutOfFuel\<close> is the outcome for every larger amount of fuel: it
  is what the program does.
\<close>

lemma some_cong_on:
  "(\<And>d. d \<in> set ds \<Longrightarrow> f d \<noteq> OutOfFuel \<Longrightarrow> g d = f d) \<Longrightarrow>
   some f ds \<noteq> OutOfFuel \<Longrightarrow> some g ds = some f ds"
  by (induction ds) (auto split: outcome.splits if_splits)

lemma hasLoop_fuel_Suc:
  "hasLoop n s a d \<noteq> OutOfFuel \<Longrightarrow> hasLoop (Suc n) s a d = hasLoop n s a d"
proof (induction n arbitrary: d)
  case 0
  then show ?case by simp
next
  case (Suc n)
  show ?case
  proof (cases "eqAddress a d")
    case True
    then show ?thesis by simp
  next
    case False
    show ?thesis
    proof (cases "lookupCell s d")
      case (Return sl)
      show ?thesis
      proof (cases sl)
        case (Occupied c)
        with Suc.prems False Return
        have ne: "some (hasLoop n s a) (cellDependencies c) \<noteq> OutOfFuel" by simp
        have "some (hasLoop (Suc n) s a) (cellDependencies c) =
              some (hasLoop n s a) (cellDependencies c)"
          by (rule some_cong_on[OF _ ne]) (rule Suc.IH)
        with False Return Occupied show ?thesis by simp
      qed (use False Return in simp_all)
    qed (use False in simp_all)
  qed
qed

lemma hasLoop_fuel_mono:
  "hasLoop n s a d \<noteq> OutOfFuel \<Longrightarrow> n \<le> m \<Longrightarrow> hasLoop m s a d = hasLoop n s a d"
proof (induction m)
  case 0
  then show ?case by simp
next
  case (Suc m)
  show ?case
  proof (cases "n = Suc m")
    case True
    then show ?thesis by simp
  next
    case False
    with Suc.prems have le: "n \<le> m" by simp
    with Suc have eq: "hasLoop m s a d = hasLoop n s a d" by simp
    with Suc.prems have "hasLoop m s a d \<noteq> OutOfFuel" by simp
    then have "hasLoop (Suc m) s a d = hasLoop m s a d" by (rule hasLoop_fuel_Suc)
    with eq show ?thesis by simp
  qed
qed

lemma hasDependencyCycle_fuel_mono:
  "hasDependencyCycle n s a v \<noteq> OutOfFuel \<Longrightarrow> n \<le> m \<Longrightarrow>
   hasDependencyCycle m s a v = hasDependencyCycle n s a v"
  unfolding hasDependencyCycle_def
  by (rule some_cong_on) (auto intro: hasLoop_fuel_mono)





section \<open>Properties of the evaluator and of the edit\<close>

text \<open>
  C8, as the claim has it (a text that does not start with the marker): false, the text
  is trimmed before the marker is looked for, so a space and then the marker make a
  formula.
\<close>

theorem literal_after_space_is_formula:
  "hd '' =x'' \<noteq> CHR ''='' \<and>
   cellValue (Suc 0) (makeMatrix 26 1000) \<lparr>raw = '' =x''\<rparr> = Return (Text ''INVALID'')"
  by code_simp

text \<open>
  C8, amended: for every text whose trimmed form is empty or does not start with the
  marker, a cell with that raw text has that text, untrimmed, as its value.
\<close>

theorem literal_text_round_trip:
  "trim t = [] \<or> hd (trim t) \<noteq> CHR ''='' \<Longrightarrow>
   cellValue (Suc n) state \<lparr>raw = t\<rparr> = Return (Text t)"
  by (auto simp: parsed_def parseCellContents_def)

theorem literal_text_round_trip_witness:
  "hd (trim '' 12 apples'') \<noteq> CHR ''='' \<and>
   cellValue (Suc 0) (makeMatrix 26 1000) \<lparr>raw = '' 12 apples''\<rparr> = Return (Text '' 12 apples'')"
proof -
  have h: "hd (trim '' 12 apples'') \<noteq> CHR ''=''"
    by (simp add: trim_def isWhiteSpace_def)
  then have "trim '' 12 apples'' = [] \<or> hd (trim '' 12 apples'') \<noteq> CHR ''=''" by simp
  from literal_text_round_trip[OF this, of 0 "makeMatrix 26 1000"] h show ?thesis by simp
qed

text \<open>
  C6: when the cycle check answers true, the edit handler shows the alert and returns
  the grid it was given: no raw text has changed. The witness is the rejected write of
  \<open>=A1\<close> into B1 on a grid where A1 holds \<open>=B1\<close>.
\<close>

theorem rejected_edit_leaves_grid:
  "hasDependencyCycle n matrix addr edit = Return True \<Longrightarrow>
   onBlur n matrix addr edit = Return (True, matrix)"
  by (simp add: onBlur_def)

lemma gridWithA1_committed:
  "onBlur 1 (makeMatrix 26 1000) \<lparr>x = 0, y = 1\<rparr> ''=B1'' = Return (False, gridWithA1 ''=B1'')"
  by code_simp

theorem rejected_edit_leaves_grid_witness:
  "hasDependencyCycle 2 (gridWithA1 ''=B1'') \<lparr>x = 1, y = 1\<rparr> ''=A1'' = Return True \<and>
   onBlur 2 (gridWithA1 ''=B1'') \<lparr>x = 1, y = 1\<rparr> ''=A1'' = Return (True, gridWithA1 ''=B1'')"
proof -
  have h: "hasDependencyCycle 2 (gridWithA1 ''=B1'') \<lparr>x = 1, y = 1\<rparr> ''=A1'' = Return True"
    by code_simp
  from h rejected_edit_leaves_grid[OF h] show ?thesis by simp
qed

lemma gridWithA1_examples_committed:
  "onBlur 1 (makeMatrix 26 1000) \<lparr>x = 0, y = 1\<rparr> ''=SUM(0)'' = Return (False, gridWithA1 ''=SUM(0)'')"
  "onBlur 1 (makeMatrix 26 1000) \<lparr>x = 0, y = 1\<rparr> ''0'' = Return (False, gridWithA1 ''0'')"
  "onBlur 1 (makeMatrix 26 1000) \<lparr>x = 0, y = 1\<rparr> ''x'' = Return (False, gridWithA1 ''x'')"
  by code_simp+

text \<open>
  C2, as the claim has it (a referenced value that is the number 0 is displayed as
  computed): false. On the grid where A1 holds \<open>=SUM(0)\<close>, the value of A1 is the number
  0 and the value of a cell holding \<open>=A1\<close> is the empty text.
\<close>

theorem ref_to_numeric_zero_shows_empty:
  "lookupCell (gridWithA1 ''=SUM(0)'') \<lparr>x = 0, y = 1\<rparr> = Return (Occupied \<lparr>raw = ''=SUM(0)''\<rparr>) \<and>
   cellValue 2 (gridWithA1 ''=SUM(0)'') \<lparr>raw = ''=SUM(0)''\<rparr> = Return (Numeric (Fin 0)) \<and>
   cellValue 3 (gridWithA1 ''=SUM(0)'') \<lparr>raw = ''=A1''\<rparr> = Return (Text [])"
  by code_simp

text \<open>
  C2, amended: the value of a ref formula is the empty text when the referenced slot
  holds no cell, and when the referenced value is the empty text, the number 0 or
  not-a-number; every other referenced value, the text \<open>0\<close> among them, is displayed as
  computed.
\<close>

theorem ref_falls_back_on_falsy:
  assumes "parsed c = Ref a"
  shows "(lookupCell s a = Return Null \<or> lookupCell s a = Return Undefined \<longrightarrow>
            cellValue (Suc n) s c = Return (Text [])) \<and>
         (lookupCell s a = Return (Occupied c') \<and> cellValue n s c' = Return v \<longrightarrow>
            cellValue (Suc n) s c =
              Return (if v = Text [] \<or> v = Numeric (Fin 0) \<or> v = Numeric NaN then Text [] else v))"
  using assms by (cases v) auto

theorem ref_falls_back_on_falsy_witness:
  "parsed \<lparr>raw = ''=A1''\<rparr> = Ref \<lparr>x = 0, y = 1\<rparr> \<and>
   lookupCell (gridWithA1 ''0'') \<lparr>x = 0, y = 1\<rparr> = Return (Occupied \<lparr>raw = ''0''\<rparr>) \<and>
   cellValue 1 (gridWithA1 ''0'') \<lparr>raw = ''0''\<rparr> = Return (Text ''0'') \<and>
   cellValue (Suc 1) (gridWithA1 ''0'') \<lparr>raw = ''=A1''\<rparr> = Return (Text ''0'')"
proof -
  have p: "parsed \<lparr>raw = ''=A1''\<rparr> = Ref \<lparr>x = 0, y = 1\<rparr>" by code_simp
  have l: "lookupCell (gridWithA1 ''0'') \<lparr>x = 0, y = 1\<rparr> = Return (Occupied \<lparr>raw = ''0''\<rparr>)"
    by code_simp
  have v: "cellValue 1 (gridWithA1 ''0'') \<lparr>raw = ''0''\<rparr> = Return (Text ''0'')" by code_simp
  from ref_falls_back_on_falsy[OF p, of "gridWithA1 ''0''" 1 "\<lparr>raw = ''0''\<rparr>" "Text ''0''"] p l v
  show ?thesis by simp
qed

lemma sumM_productM_neutral: "m = sumM \<or> m = productM \<Longrightarrow> concatM m r (emptyM m) = r"
  by (cases r) (auto simp: sumM_def productM_def)

text \<open>
  The half of C1 that holds: in a sum or a product, a ref argument whose cell has a text
  value that does not convert to a number reads as the identity of the fold and leaves
  the result of the loop so far as it is.
\<close>

lemma non_numeric_reference_reads_identity:
  assumes m: "m = sumM \<or> m = productM"
    and l: "lookupCell s a = Return (Occupied c)"
    and v: "cellValue n s c = Return (Text t)"
    and t: "isNaN (Number t)"
  shows "readNumber n s (Occupied c) (emptyM m) = Return (emptyM m) \<and>
         evalLoop n s (RefArg a # post) m res = evalLoop n s post m res"
proof
  from v t show r: "readNumber n s (Occupied c) (emptyM m) = Return (emptyM m)"
    by (simp add: asNumber_def)
  show "evalLoop n s (RefArg a # post) m res = evalLoop n s post m res"
    using l r sumM_productM_neutral[OF m] by (simp del: readNumber.simps)
qed

text \<open>
  What the other paths of the code do with a cell that holds no number: a text that is
  not a number, a slot that is null, and an empty cell in a sum all read as the identity
  of the fold.
\<close>

lemma product_with_text_cell_is_two:
  "cellValue 2 (gridWithA1 ''x'') \<lparr>raw = ''=PRODUCT(A1,2)''\<rparr> = Return (Numeric (Fin 2))"
  by code_simp

lemma product_with_null_slot_is_two:
  "cellValue 2 ((makeMatrix 26 1000)[1 := (makeMatrix 26 1000 ! 1)[0 := Null]])
     \<lparr>raw = ''=PRODUCT(A1,2)''\<rparr> = Return (Numeric (Fin 2))"
  by code_simp

lemma sum_with_empty_cell_is_two:
  "cellValue 2 (makeMatrix 26 1000) \<lparr>raw = ''=SUM(A1,2)''\<rparr> = Return (Numeric (Fin 2))"
  by code_simp

text \<open>
  C1: a ref argument whose cell holds no number should contribute the identity of the
  fold, so that \<open>=PRODUCT(A1,2)\<close> with A1 empty is 2. The code gives 0 there: the empty
  cell holds the empty text, \<open>asNumber\<close> converts it with \<open>Number\<close>, which gives 0 and not
  not-a-number, and the product is 1 times 0 times 2.
\<close>

theorem product_with_empty_cell_is_zero:
  "lookupCell (makeMatrix 26 1000) \<lparr>x = 0, y = 1\<rparr> = Return (Occupied \<lparr>raw = []\<rparr>) \<and>
   cellValue 2 (makeMatrix 26 1000) \<lparr>raw = ''=PRODUCT(A1,2)''\<rparr> = Return (Numeric (Fin 0))"
  by code_simp

section \<open>Occupancy of the slots\<close>

lemma lookupCell_Return_iff:
  "lookupCell s a = Return sl \<longleftrightarrow>
   y a < length s \<and> (if x a < length (s ! y a) then sl = s ! y a ! x a else sl = Undefined)"
  by (auto simp: lookupCell_def Let_def)

lemma lookupCell_Throw_iff:
  "lookupCell s a = Throw e \<longleftrightarrow> e = TypeError \<and> \<not> y a < length s"
  by (cases e) (auto simp: lookupCell_def Let_def)

lemma lookupCell_not_OutOfFuel [simp]: "lookupCell s a \<noteq> OutOfFuel"
  by (auto simp: lookupCell_def Let_def)

lemma allOccupied_makeMatrix: "allOccupied cols rows (makeMatrix cols rows)"
  by (auto simp: allOccupied_def makeMatrix_def)

lemma allOccupied_lookup:
  assumes "allOccupied cols rows s" "x a < cols" "y a < rows"
  shows "\<exists>c. lookupCell s a = Return (Occupied c)"
proof -
  from assms have yl: "y a < length s" by (simp add: allOccupied_def)
  then have row: "s ! y a \<in> set s" by simp
  with assms have xl: "x a < length (s ! y a)" by (simp add: allOccupied_def)
  then have "s ! y a ! x a \<in> set (s ! y a)" by simp
  with assms(1) row obtain c where "s ! y a ! x a = Occupied c"
    unfolding allOccupied_def by blast
  with yl xl show ?thesis by (simp add: lookupCell_Return_iff)
qed

lemma allOccupied_not_Null:
  assumes "allOccupied cols rows s"
  shows "lookupCell s a \<noteq> Return Null"
proof
  assume "lookupCell s a = Return Null"
  then have yl: "y a < length s" and xl: "x a < length (s ! y a)" and n: "s ! y a ! x a = Null"
    by (auto simp: lookupCell_Return_iff split: if_splits)
  from yl have row: "s ! y a \<in> set s" by simp
  from xl have "s ! y a ! x a \<in> set (s ! y a)" by simp
  with assms row n show False unfolding allOccupied_def by force
qed

lemma allOccupied_update:
  assumes "allOccupied cols rows s" "j < length s" "i < length (s ! j)"
  shows "allOccupied cols rows (s[j := (s ! j)[i := Occupied c]])"
proof -
  have "\<And>row. row \<in> set (s[j := (s ! j)[i := Occupied c]]) \<Longrightarrow>
        length row = cols \<and> (\<forall>sl \<in> set row. \<exists>cell. sl = Occupied cell)"
  proof -
    fix row assume "row \<in> set (s[j := (s ! j)[i := Occupied c]])"
    then have "row = (s ! j)[i := Occupied c] \<or> row \<in> set s"
      using set_update_subset_insert[of s j] by auto
    then show "length row = cols \<and> (\<forall>sl \<in> set row. \<exists>cell. sl = Occupied cell)"
    proof
      assume r: "row = (s ! j)[i := Occupied c]"
      from assms have sj: "s ! j \<in> set s" by simp
      with assms have "length (s ! j) = cols" and "\<forall>sl \<in> set (s ! j). \<exists>cell. sl = Occupied cell"
        by (auto simp: allOccupied_def)
      with r show ?thesis using set_update_subset_insert[of "s ! j" i "Occupied c"] by auto
    next
      assume "row \<in> set s"
      with assms show ?thesis by (auto simp: allOccupied_def)
    qed
  qed
  with assms show ?thesis by (simp add: allOccupied_def)
qed

lemma newValue_Return:
  assumes "allOccupied cols rows s" "newValue s a v = Return s'"
  shows "\<exists>c. lookupCell s a = Return (Occupied c) \<and>
             s' = s[y a := (s ! y a)[x a := Occupied (setRaw c v)]]"
proof (cases "lookupCell s a")
  case (Return sl)
  with assms allOccupied_not_Null[OF assms(1), of a] show ?thesis
    by (cases sl) (auto simp: newValue_def)
qed (use assms in \<open>auto simp: newValue_def\<close>)

lemma allOccupied_newValue:
  assumes "allOccupied cols rows s" "newValue s a v = Return s'"
  shows "allOccupied cols rows s'"
proof -
  from newValue_Return[OF assms] obtain c where
    l: "lookupCell s a = Return (Occupied c)" and
    s': "s' = s[y a := (s ! y a)[x a := Occupied (setRaw c v)]]" by blast
  from l have "y a < length s" "x a < length (s ! y a)"
    by (auto simp: lookupCell_Return_iff split: if_splits)
  with assms(1) s' show ?thesis by (simp add: allOccupied_update)
qed

lemma onBlur_Return:
  "onBlur n s a v = Return (b, s') \<Longrightarrow>
   (b \<and> s' = s \<and> hasDependencyCycle n s a v = Return True) \<or>
   (\<not> b \<and> hasDependencyCycle n s a v = Return False \<and> newValue s a v = Return s')"
  by (auto simp: onBlur_def split: outcome.splits if_splits)

lemma allOccupied_onBlur:
  "allOccupied cols rows s \<Longrightarrow> onBlur n s a v = Return (b, s') \<Longrightarrow> allOccupied cols rows s'"
  by (auto dest!: onBlur_Return intro: allOccupied_newValue)

lemma produced_allOccupied: "produced cols rows s \<Longrightarrow> allOccupied cols rows s"
  by (induction rule: produced.induct)
    (auto intro: allOccupied_makeMatrix allOccupied_newValue allOccupied_onBlur)

lemma committed_produced: "committed cols rows s \<Longrightarrow> produced cols rows s"
  by (induction rule: committed.induct) (auto intro: produced.intros)

text \<open>
  C10: every slot of the initial grid holds a cell with empty raw text, and every slot
  within the size of the grid still holds a cell after any sequence of operations: the
  lookup at such an address returns a cell, never \<open>null\<close> or \<open>undefined\<close>, so the
  branches of the evaluator for an empty slot are not taken there.
\<close>

theorem every_slot_stays_occupied:
  "(x addr < cols \<and> y addr < rows \<longrightarrow>
      lookupCell (makeMatrix cols rows) addr = Return (Occupied \<lparr>raw = []\<rparr>)) \<and>
   (produced cols rows state \<and> x addr < cols \<and> y addr < rows \<longrightarrow>
      (\<exists>cell. lookupCell state addr = Return (Occupied cell)))"
proof (intro conjI impI)
  assume "x addr < cols \<and> y addr < rows"
  then show "lookupCell (makeMatrix cols rows) addr = Return (Occupied \<lparr>raw = []\<rparr>)"
    by (simp add: lookupCell_def makeMatrix_def)
next
  assume "produced cols rows state \<and> x addr < cols \<and> y addr < rows"
  then show "\<exists>cell. lookupCell state addr = Return (Occupied cell)"
    using allOccupied_lookup produced_allOccupied by blast
qed

theorem every_slot_stays_occupied_witness:
  "produced 26 1000 (gridWithA1 ''=B1'') \<and>
   lookupCell (makeMatrix 26 1000) \<lparr>x = 0, y = 1\<rparr> = Return (Occupied \<lparr>raw = []\<rparr>) \<and>
   (\<exists>cell. lookupCell (gridWithA1 ''=B1'') \<lparr>x = 0, y = 1\<rparr> = Return (Occupied cell))"
proof -
  have p: "produced 26 1000 (gridWithA1 ''=B1'')"
    using produced_onBlur[OF produced_init gridWithA1_committed] .
  from every_slot_stays_occupied[of "\<lparr>x = 0, y = 1\<rparr>" 26 1000 "gridWithA1 ''=B1''"] p
  show ?thesis by simp
qed

section \<open>The cycle check and the dependency graph\<close>

lemma eqAddress_iff [simp]: "eqAddress a b \<longleftrightarrow> a = b"
  by (cases a, cases b) (simp add: eqAddress_def)

lemma dependsOnI:
  "lookupCell s a = Return (Occupied c) \<Longrightarrow> d \<in> set (cellDependencies c) \<Longrightarrow> (a, d) \<in> dependsOn s"
  by (auto simp: dependsOn_def)

lemma some_not_OutOfFuel:
  "(\<And>d. d \<in> set ds \<Longrightarrow> f d \<noteq> OutOfFuel) \<Longrightarrow> some f ds \<noteq> OutOfFuel"
  by (induction ds) (auto split: outcome.splits)


lemma some_Return_False: "some f ds = Return False \<Longrightarrow> d \<in> set ds \<Longrightarrow> f d = Return False"
  by (induction ds) (auto split: outcome.splits if_splits)

lemma some_Return_iff:
  "(\<And>d. d \<in> set ds \<Longrightarrow> f d = Return (P d)) \<Longrightarrow> some f ds = Return (\<exists>d\<in>set ds. P d)"
  by (induction ds) auto

lemma finite_occupied: "finite (occupied s)"
proof -
  let ?A = "(\<lambda>(j, i). \<lparr>x = i, y = j\<rparr>) ` (SIGMA j:{..<length s}. {..<length (s ! j)})"
  have "occupied s \<subseteq> ?A"
  proof
    fix a assume "a \<in> occupied s"
    then have "y a < length s" "x a < length (s ! y a)"
      by (auto simp: occupied_def lookupCell_Return_iff split: if_splits)
    then have "(y a, x a) \<in> (SIGMA j:{..<length s}. {..<length (s ! j)})" by simp
    moreover have "a = (\<lambda>(j, i). \<lparr>x = i, y = j\<rparr>) (y a, x a)" by simp
    ultimately show "a \<in> ?A" by (rule image_eqI[rotated])
  qed
  moreover have "finite ?A" by (intro finite_imageI finite_SigmaI) simp_all
  ultimately show ?thesis by (rule finite_subset)
qed


text \<open>
  The depth of the traversal: on an acyclic graph the addresses on the path from the
  first dependency to the current one are distinct addresses that hold a cell, so fuel
  beyond the number of those that are left is never used up.
\<close>

lemma hasLoop_depth:
  assumes ac: "acyclic (dependsOn s)"
  shows "P \<subseteq> occupied s \<Longrightarrow> (\<forall>p\<in>P. (p, d) \<in> (dependsOn s)\<^sup>+) \<Longrightarrow>
         card (occupied s - P) < n \<Longrightarrow> hasLoop n s a d \<noteq> OutOfFuel"
proof (induction n arbitrary: d P)
  case 0
  then show ?case by simp
next
  case (Suc n)
  show ?case
  proof (cases "a = d")
    case True
    then show ?thesis by simp
  next
    case False
    show ?thesis
    proof (cases "lookupCell s d")
      case (Return sl)
      show ?thesis
      proof (cases sl)
        case (Occupied c)
        with Return have occ: "d \<in> occupied s" by (auto simp: occupied_def)
        have notin: "d \<notin> P"
        proof
          assume "d \<in> P"
          with Suc.prems(2) have "(d, d) \<in> (dependsOn s)\<^sup>+" by blast
          with ac show False by (simp add: acyclic_def)
        qed
        have fin: "finite (occupied s - P)" using finite_occupied by simp
        from occ notin have eq: "occupied s - insert d P = (occupied s - P) - {d}"
          and mem: "d \<in> occupied s - P" by auto
        from fin mem have "card ((occupied s - P) - {d}) < card (occupied s - P)"
          by (rule card_Diff1_less)
        with eq have "card (occupied s - insert d P) < card (occupied s - P)" by simp
        with Suc.prems(3) have less: "card (occupied s - insert d P) < n" by simp
        have "hasLoop n s a d' \<noteq> OutOfFuel" if d': "d' \<in> set (cellDependencies c)" for d'
        proof (rule Suc.IH[of "insert d P"])
          from occ Suc.prems(1) show "insert d P \<subseteq> occupied s" by simp
          from Return Occupied d' have e: "(d, d') \<in> dependsOn s" by (auto intro: dependsOnI)
          then show "\<forall>p\<in>insert d P. (p, d') \<in> (dependsOn s)\<^sup>+"
            using Suc.prems(2) by (auto intro: trancl_into_trancl)
          from less show "card (occupied s - insert d P) < n" .
        qed
        then have "some (hasLoop n s a) (cellDependencies c) \<noteq> OutOfFuel"
          by (rule some_not_OutOfFuel)
        with False Return Occupied show ?thesis by simp
      qed (use False Return in simp_all)
    qed (use False in simp_all)
  qed
qed

lemma hasDependencyCycle_depth:
  assumes "acyclic (dependsOn s)"
  shows "hasDependencyCycle (Suc (card (occupied s))) s a v \<noteq> OutOfFuel"
proof -
  have "hasLoop (Suc (card (occupied s))) s a d \<noteq> OutOfFuel" for d
    by (rule hasLoop_depth[OF assms, of "{}"]) simp_all
  then show ?thesis
    unfolding hasDependencyCycle_def by (rule some_not_OutOfFuel)
qed

text \<open>
  C9: when the dependency graph of the grid is acyclic, the cycle check terminates for
  every edited address and every candidate text, and its traversal is bounded by the
  size of the grid: with more fuel than the grid has cells it finishes (by returning or
  by throwing), and every larger amount of fuel gives the same outcome.
\<close>

theorem cycle_check_terminates:
  assumes "acyclic (dependsOn state)"
  shows "hasDependencyCycle (Suc (card (occupied state))) state addr v \<noteq> OutOfFuel \<and>
         (\<forall>k>card (occupied state).
            hasDependencyCycle k state addr v =
            hasDependencyCycle (Suc (card (occupied state))) state addr v)"
proof (intro conjI allI impI)
  show ne: "hasDependencyCycle (Suc (card (occupied state))) state addr v \<noteq> OutOfFuel"
    using assms by (rule hasDependencyCycle_depth)
  fix k assume "card (occupied state) < k"
  then have "Suc (card (occupied state)) \<le> k" by simp
  with ne show "hasDependencyCycle k state addr v =
                hasDependencyCycle (Suc (card (occupied state))) state addr v"
    by (rule hasDependencyCycle_fuel_mono)
qed


lemma hasLoop_False: "hasLoop n s a d = Return False \<Longrightarrow> (d, a) \<notin> (dependsOn s)\<^sup>*"
proof (induction n arbitrary: d)
  case 0
  then show ?case by simp
next
  case (Suc n)
  from Suc.prems have ne: "a \<noteq> d" by (auto split: if_splits)
  show ?case
  proof
    assume "(d, a) \<in> (dependsOn s)\<^sup>*"
    with ne obtain d' where e: "(d, d') \<in> dependsOn s" and r: "(d', a) \<in> (dependsOn s)\<^sup>*"
      by (auto elim: converse_rtranclE)
    from e obtain c where l: "lookupCell s d = Return (Occupied c)"
      and d': "d' \<in> set (cellDependencies c)" by (auto simp: dependsOn_def)
    from Suc.prems ne l have "some (hasLoop n s a) (cellDependencies c) = Return False" by simp
    from some_Return_False[OF this d'] have "hasLoop n s a d' = Return False" .
    with Suc.IH r show False by blast
  qed
qed

section \<open>The dependency graph after an edit\<close>

lemma Address_eq_iff: "(a :: Address) = b \<longleftrightarrow> x a = x b \<and> y a = y b"
  by (cases a, cases b) simp

lemma lookupCell_update:
  assumes "y a < length s" "x a < length (s ! y a)"
  shows "lookupCell (s[y a := (s ! y a)[x a := sl]]) b =
         (if b = a then Return sl else lookupCell s b)"
proof (cases "y b = y a")
  case True
  with assms show ?thesis
    by (cases "x b = x a") (auto simp: lookupCell_def Address_eq_iff)
next
  case False
  then show ?thesis by (auto simp: lookupCell_def Address_eq_iff)
qed

lemma first_return:
  "(d, a) \<in> T\<^sup>* \<Longrightarrow> (d, a) \<in> {(p, q). (p, q) \<in> T \<and> p \<noteq> a}\<^sup>*"
proof (induction rule: converse_rtrancl_induct)
  case base
  then show ?case by simp
next
  case (step d d')
  show ?case
  proof (cases "d = a")
    case True
    then show ?thesis by simp
  next
    case False
    with step.hyps have "(d, d') \<in> {(p, q). (p, q) \<in> T \<and> p \<noteq> a}" by simp
    then show ?thesis using step.IH by (rule converse_rtrancl_into_rtrancl)
  qed
qed

lemma reach_same_off_source:
  assumes "{(p, q). (p, q) \<in> T \<and> p \<noteq> a} \<subseteq> U"
  shows "(d, a) \<in> T\<^sup>* \<Longrightarrow> (d, a) \<in> U\<^sup>*"
  using first_return[of d a T] rtrancl_mono[OF assms] by blast

lemma acyclic_redirect:
  assumes "acyclic T" "finite D" "\<forall>d\<in>D. (d, a) \<notin> T\<^sup>*"
  shows "acyclic ({(p, q). (p, q) \<in> T \<and> p \<noteq> a} \<union> {a} \<times> D)"
  using assms(2,3)
proof (induction D)
  case empty
  have "{(p, q). (p, q) \<in> T \<and> p \<noteq> a} \<union> {a} \<times> {} \<subseteq> T" by auto
  with assms(1) show ?case by (rule acyclic_subset)
next
  case (insert d D)
  let ?U = "{(p, q). (p, q) \<in> T \<and> p \<noteq> a} \<union> {a} \<times> D"
  from insert have ac: "acyclic ?U" by simp
  have "(d, a) \<notin> ?U\<^sup>*"
  proof
    assume "(d, a) \<in> ?U\<^sup>*"
    moreover have "{(p, q). (p, q) \<in> ?U \<and> p \<noteq> a} \<subseteq> T" by auto
    ultimately have "(d, a) \<in> T\<^sup>*" by (rule reach_same_off_source[rotated])
    with insert.prems show False by simp
  qed
  with ac have "acyclic (insert (a, d) ?U)" by simp
  moreover have "{(p, q). (p, q) \<in> T \<and> p \<noteq> a} \<union> {a} \<times> insert d D = insert (a, d) ?U"
    by auto
  ultimately show ?case by simp
qed

text \<open>The graph after a write.\<close>

lemma dependsOn_update:
  assumes "y a < length s" "x a < length (s ! y a)"
  shows "dependsOn (s[y a := (s ! y a)[x a := Occupied c]]) =
         {(p, q). (p, q) \<in> dependsOn s \<and> p \<noteq> a} \<union> {a} \<times> set (cellDependencies c)"
  by (auto simp: dependsOn_def lookupCell_update[OF assms] split: if_splits)

lemma cellDependencies_setRaw:
  "cellDependencies (setRaw c v) = dependencies (parseCellContents v)"
  by (simp add: cellDependencies_def parsed_def setRaw_def)

lemma dependsOn_newValue:
  assumes "allOccupied cols rows s" "newValue s a v = Return s'"
  shows "dependsOn s' =
         {(p, q). (p, q) \<in> dependsOn s \<and> p \<noteq> a} \<union> {a} \<times> set (dependencies (parseCellContents v))"
proof -
  from newValue_Return[OF assms] obtain c where
    l: "lookupCell s a = Return (Occupied c)" and
    s': "s' = s[y a := (s ! y a)[x a := Occupied (setRaw c v)]]" by blast
  from l have "y a < length s" "x a < length (s ! y a)"
    by (auto simp: lookupCell_Return_iff split: if_splits)
  from dependsOn_update[OF this] s' show ?thesis by (simp add: cellDependencies_setRaw)
qed

lemma length_newValue:
  assumes "allOccupied cols rows s" "newValue s a v = Return s'"
  shows "length s' = length s"
  using allOccupied_newValue[OF assms] assms(1) by (simp add: allOccupied_def)



lemma hasDependencyCycle_False:
  "hasDependencyCycle n s a v = Return False \<Longrightarrow> d \<in> set (dependencies (parseCellContents v)) \<Longrightarrow>
   (d, a) \<notin> (dependsOn s)\<^sup>* \<and> y d < length s"
proof -
  assume f: "hasDependencyCycle n s a v = Return False"
    and d: "d \<in> set (dependencies (parseCellContents v))"
  then have h: "hasLoop n s a d = Return False"
    unfolding hasDependencyCycle_def by (rule some_Return_False)
  then have "(d, a) \<notin> (dependsOn s)\<^sup>*" by (rule hasLoop_False)
  moreover from h have "y d < length s"
    by (cases n) (auto simp: lookupCell_def split: if_splits)
  ultimately show ?thesis ..
qed

text \<open>The invariant of the committed grids.\<close>

lemma dependsOn_makeMatrix: "dependsOn (makeMatrix cols rows) = {}"
proof -
  have "cellDependencies \<lparr>raw = []\<rparr> = []"
    by (simp add: cellDependencies_def parsed_def parseCellContents_def trim_def)
  then show ?thesis
    by (auto simp: dependsOn_def makeMatrix_def lookupCell_Return_iff split: if_splits)
qed

lemma committed_invariant:
  "committed cols rows s \<Longrightarrow> allOccupied cols rows s \<and> rowsInRange s \<and> acyclic (dependsOn s)"
proof (induction rule: committed.induct)
  case committed_init
  then show ?case
    by (simp add: allOccupied_makeMatrix rowsInRange_def dependsOn_makeMatrix acyclic_def)
next
  case (committed_onBlur s n a v b s')
  then have ao: "allOccupied cols rows s" and rr: "rowsInRange s" and ac: "acyclic (dependsOn s)"
    by simp_all
  from onBlur_Return[OF committed_onBlur.hyps(2)] show ?case
  proof
    assume "b \<and> s' = s \<and> hasDependencyCycle n s a v = Return True"
    with ao rr ac show ?thesis by simp
  next
    assume "\<not> b \<and> hasDependencyCycle n s a v = Return False \<and> newValue s a v = Return s'"
    then have f: "hasDependencyCycle n s a v = Return False" and nv: "newValue s a v = Return s'"
      by simp_all
    note g = dependsOn_newValue[OF ao nv]
    from allOccupied_newValue[OF ao nv] have ao': "allOccupied cols rows s'" .
    have len: "length s' = length s" by (rule length_newValue[OF ao nv])
    have "rowsInRange s'"
      unfolding rowsInRange_def g using rr hasDependencyCycle_False[OF f] len
      by (auto simp: rowsInRange_def)
    moreover have "acyclic (dependsOn s')"
      unfolding g using ac hasDependencyCycle_False[OF f]
      by (intro acyclic_redirect) auto
    ultimately show ?thesis using ao' by simp
  qed
qed

section \<open>Evaluation on the committed grids\<close>






section \<open>A chain of references\<close>

declare showNat.simps [simp del]

lemma digitOf_digitChar: "d < 10 \<Longrightarrow> digitOf 10 (digitChar d) = Some d"
proof -
  assume "d < 10"
  then have "d \<in> {0, 1, 2, 3, 4, 5, 6, 7, 8, 9}" by auto
  then show ?thesis by (auto simp: digitChar_def digitOf_def)
qed

lemma digitsFrom_append:
  "digitsFrom b acc (cs @ [c]) =
   (case digitsFrom b acc cs of
      None \<Rightarrow> None
    | Some v \<Rightarrow> (case digitOf b c of None \<Rightarrow> None | Some d \<Rightarrow> Some (b * v + d)))"
  by (induction cs arbitrary: acc) (auto split: option.splits)

lemma digitsFrom_showNat: "digitsFrom 10 0 (showNat n) = Some n"
proof (induction n rule: showNat.induct)
  case (1 n)
  show ?case
  proof (cases "n < 10")
    case True
    then show ?thesis by (simp add: showNat.simps[of n] digitOf_digitChar)
  next
    case False
    with 1 have "digitsFrom 10 0 (showNat (n div 10)) = Some (n div 10)" by simp
    moreover have "digitOf 10 (digitChar (n mod 10)) = Some (n mod 10)"
      by (rule digitOf_digitChar) simp
    ultimately show ?thesis using False
      by (simp add: showNat.simps[of n] digitsFrom_append)
  qed
qed

lemma showNat_not_Nil: "showNat n \<noteq> []"
  by (subst showNat.simps) simp

lemma digits_showNat: "digits 10 (showNat n) = Some n"
  by (simp add: digits_def showNat_not_Nil digitsFrom_showNat)

lemma showNat_digits: "list_all isDigit (showNat n)"
  using digits_Some_iff[of "showNat n"] digits_showNat[of n] by blast


lemma upper_letter_facts:
  assumes "c \<in> set upperLetters"
  shows "isAsciiLetter c" and "\<not> isWhiteSpace c" and "c \<noteq> CHR ''(''" and "toUpperChar c = c"
proof -
  show "isAsciiLetter c" using assms by (simp add: isAsciiLetter_def)
  show "\<not> isWhiteSpace c" using assms by (auto simp: upperLetters_def isWhiteSpace_def)
  show "c \<noteq> CHR ''(''" using assms by (auto simp: upperLetters_def)
  from assms have "c \<notin> set lowerLetters"
    by (auto simp: upperLetters_def lowerLetters_def)
  then have "map_of (zip lowerLetters upperLetters) c = None"
    by (simp add: upperLetters_def lowerLetters_def)
  then show "toUpperChar c = c" by (simp add: toUpperChar_def)
qed

lemma length_upperLetters: "length upperLetters = 26"
  by (simp add: upperLetters_def)

lemma distinct_upperLetters: "distinct upperLetters"
  by (simp add: upperLetters_def)

lemma alphabetToIdx_nth:
  assumes "i < 26"
  shows "alphabetToIdx (toUpperCase [upperLetters ! i]) = Some i"
proof -
  from assms have mem: "upperLetters ! i \<in> set upperLetters"
    by (simp add: length_upperLetters)
  have d: "distinct alphabet"
    unfolding alphabet_def by (simp add: distinct_map distinct_upperLetters inj_on_def)
  have l: "length alphabet = 26" by (simp add: alphabet_def length_upperLetters)
  from assms have "map_of (zip alphabet [0 ..< length alphabet]) (alphabet ! i) =
                   Some ([0 ..< length alphabet] ! i)"
    by (intro map_of_zip_nth d) (simp_all add: l)
  moreover from assms have "alphabet ! i = [upperLetters ! i]"
    by (simp add: alphabet_def length_upperLetters)
  moreover from assms have "[0 ..< length alphabet] ! i = i" by (simp add: l)
  moreover have "toUpperCase [upperLetters ! i] = [upperLetters ! i]"
    by (simp add: toUpperCase_def upper_letter_facts(4)[OF mem])
  ultimately show ?thesis by (simp only: alphabetToIdx_def)
qed

lemma indexOf_None: "c \<notin> set s \<Longrightarrow> indexOf s c = None"
  by (induction s) auto

lemma digit_not_paren: "isDigit c \<Longrightarrow> c \<noteq> CHR ''(''"
  by (auto simp: isDigit_code)

lemma trim_no_space_ends:
  assumes "s \<noteq> []" and "\<not> isWhiteSpace (hd s)" and "\<not> isWhiteSpace (last s)"
  shows "trim s = s"
proof -
  from assms(2) have "dropWhile isWhiteSpace s = s" by (simp add: dropWhile_eq_self_iff)
  moreover from assms(3) have "dropWhile isWhiteSpace (rev s) = rev s"
    by (simp add: dropWhile_eq_self_iff hd_rev)
  ultimately show ?thesis by (simp add: trim_def)
qed

lemma last_showNat_digit: "isDigit (last (showNat n))"
  using showNat_digits[of n] showNat_not_Nil[of n] by (simp add: list_all_iff)

text \<open>The text of a reference to a column of the grid parses as that reference.\<close>

lemma parseRef_refText:
  assumes "x a < 26"
  shows "parseRef (upperLetters ! x a # showNat (y a)) = Some a"
proof -
  from assms have mem: "upperLetters ! x a \<in> set upperLetters"
    by (simp add: length_upperLetters)
  have "parseRef (upperLetters ! x a # showNat (y a)) = Some \<lparr>x = x a, y = y a\<rparr>"
    unfolding parseRef_def
    by (simp only: list.case upper_letter_facts(1)[OF mem] if_True digits_showNat option.case
        alphabetToIdx_nth[OF assms])
  then show ?thesis by simp
qed

lemma parse_refText:
  assumes "x a < 26"
  shows "parseCellContents (refText a) = Ref a"
proof -
  let ?c = "upperLetters ! x a"
  let ?r = "?c # showNat (y a)"
  from assms have mem: "?c \<in> set upperLetters" by (simp add: length_upperLetters)
  have lastr: "last ?r = last (showNat (y a))" using showNat_not_Nil by simp
  have nows: "\<not> isWhiteSpace (last (showNat (y a)))"
    using last_showNat_digit digit_not_special(1) by blast
  have lastt: "last (refText a) = last (showNat (y a))"
    using showNat_not_Nil by (simp add: refText_def)
  have "\<not> isWhiteSpace CHR ''=''" by (simp add: isWhiteSpace_def)
  then have t1: "trim (refText a) = refText a"
    using nows lastt by (intro trim_no_space_ends) (simp_all add: refText_def)
  have t2: "trim ?r = ?r"
    using nows lastr upper_letter_facts(2)[OF mem] by (intro trim_no_space_ends) simp_all
  have "CHR ''('' \<notin> set (showNat (y a))"
    using showNat_digits[of "y a"] digit_not_paren by (auto simp: list_all_iff)
  then have "CHR ''('' \<notin> set (refText a)"
    using upper_letter_facts(3)[OF mem] by (simp add: refText_def)
  then have ix: "indexOf (refText a) CHR ''('' = None" by (rule indexOf_None)
  have sl: "sliceFrom (refText a) 1 = ?r" by (simp add: sliceFrom_def refText_def)
  have hd: "\<not> (refText a = [] \<or> hd (refText a) \<noteq> CHR ''='')" by (simp add: refText_def)
  show ?thesis
    unfolding parseCellContents_def t1 Let_def
    by (simp only: hd if_False ix option.case sl t2 parseRef_refText[OF assms])
qed

lemma cellDependencies_refText:
  "x a < 26 \<Longrightarrow> cellDependencies \<lparr>raw = refText a\<rparr> = [a]"
  by (simp add: cellDependencies_def parsed_def parse_refText)


lemma cellAt_simps [simp]: "x (cellAt k) = k div 1000" "y (cellAt k) = k mod 1000"
  by (simp_all add: cellAt_def)

lemma cellAt_inj: "cellAt k = cellAt j \<longleftrightarrow> k = j"
proof
  assume "cellAt k = cellAt j"
  then have "k div 1000 = j div 1000" and "k mod 1000 = j mod 1000"
    by (simp_all add: cellAt_def)
  then show "k = j" by (metis div_mult_mod_eq)
qed simp

lemma cellAt_in_grid: "k < 26000 \<Longrightarrow> x (cellAt k) < 26 \<and> y (cellAt k) < 1000"
  by (simp add: less_mult_imp_div_less)

lemma newValue_Occupied:
  "lookupCell s a = Return (Occupied c) \<Longrightarrow>
   newValue s a v = Return (s[y a := (s ! y a)[x a := Occupied (setRaw c v)]])"
  by (simp add: newValue_def)

lemma lookup_chainGrid:
  "m \<le> 26000 \<Longrightarrow> k < 26000 \<Longrightarrow>
   lookupCell (chainGrid m) (cellAt k) =
   Return (Occupied \<lparr>raw = (if k < m then refText (cellAt (Suc k)) else [])\<rparr>)"
proof (induction m arbitrary: k)
  case 0
  then show ?case
    using cellAt_in_grid[of k] by (simp add: lookupCell_def makeMatrix_def)
next
  case (Suc m)
  let ?s = "chainGrid m"
  let ?t = "refText (cellAt (Suc m))"
  from Suc.prems have m: "m < 26000" by simp
  with Suc.IH[of m] have l: "lookupCell ?s (cellAt m) = Return (Occupied \<lparr>raw = []\<rparr>)" by simp
  then have r: "y (cellAt m) < length ?s" "x (cellAt m) < length (?s ! y (cellAt m))"
    by (auto simp: lookupCell_Return_iff split: if_splits)
  from newValue_Occupied[OF l, of ?t]
  have g: "chainGrid (Suc m) =
           ?s[y (cellAt m) := (?s ! y (cellAt m))[x (cellAt m) := Occupied \<lparr>raw = ?t\<rparr>]]"
    by (simp add: setRaw_def)
  show ?case
  proof (cases "k = m")
    case True
    then show ?thesis unfolding g lookupCell_update[OF r] by simp
  next
    case False
    then have "cellAt k \<noteq> cellAt m" by (simp add: cellAt_inj)
    moreover from False have "k < Suc m \<longleftrightarrow> k < m" by auto
    ultimately show ?thesis
      unfolding g lookupCell_update[OF r] using Suc.IH[of k] Suc.prems by simp
  qed
qed



text \<open>
  Reading the head of the chain nests one call of the getter for each cell of the chain:
  with fuel up to the number of references left, the fuel runs out.
\<close>

lemma chain_value_overflow:
  assumes "m < 26000"
  shows "k < m \<Longrightarrow> n \<le> m - k \<Longrightarrow>
         cellValue n (chainGrid m) \<lparr>raw = refText (cellAt (Suc k))\<rparr> = OutOfFuel"
proof (induction n arbitrary: k)
  case 0
  show ?case by simp
next
  case (Suc n)
  from Suc.prems assms have sk: "Suc k < 26000" by simp
  then have xs: "x (cellAt (Suc k)) < 26" using cellAt_in_grid[of "Suc k"] by simp
  have p: "parsed \<lparr>raw = refText (cellAt (Suc k))\<rparr> = Ref (cellAt (Suc k))"
    by (simp add: parsed_def parse_refText[OF xs])
  from sk assms have l: "lookupCell (chainGrid m) (cellAt (Suc k)) =
      Return (Occupied \<lparr>raw = (if Suc k < m then refText (cellAt (Suc (Suc k))) else [])\<rparr>)"
    using lookup_chainGrid[of m "Suc k"] by simp
  show ?case
  proof (cases "Suc k < m")
    case True
    with Suc.prems have "n \<le> m - Suc k" by simp
    with True have "cellValue n (chainGrid m) \<lparr>raw = refText (cellAt (Suc (Suc k)))\<rparr> = OutOfFuel"
      by (rule Suc.IH)
    with p l True show ?thesis by simp
  next
    case False
    with Suc.prems have "n = 0" by simp
    with p l False show ?thesis by simp
  qed
qed

lemma chain_check_overflow:
  assumes "m < 25999"
  shows "k \<le> m \<Longrightarrow> n \<le> m - k \<Longrightarrow>
         hasLoop n (chainGrid m) (cellAt 25999) (cellAt k) = OutOfFuel"
proof (induction n arbitrary: k)
  case 0
  show ?case by simp
next
  case (Suc n)
  from Suc.prems have km: "k < m" by simp
  with assms have ne: "cellAt 25999 \<noteq> cellAt k" by (simp add: cellAt_inj)
  from km assms have sk: "Suc k < 26000" by simp
  then have xs: "x (cellAt (Suc k)) < 26" using cellAt_in_grid[of "Suc k"] by simp
  from km assms have l: "lookupCell (chainGrid m) (cellAt k) =
      Return (Occupied \<lparr>raw = refText (cellAt (Suc k))\<rparr>)"
    using lookup_chainGrid[of m k] by simp
  from Suc.prems km have "hasLoop n (chainGrid m) (cellAt 25999) (cellAt (Suc k)) = OutOfFuel"
    by (intro Suc.IH) simp_all
  with ne l show ?case by (simp add: cellDependencies_refText[OF xs])
qed

lemma chain_head: "cellAt 0 = \<lparr>x = 0, y = 0\<rparr>" "refText (cellAt (Suc 0)) = ''=A1''"
  by (simp_all add: cellAt_def refText_def upperLetters_def showNat.simps digitChar_def)

section \<open>The depth of the evaluation\<close>

lemma onStack_simps [simp]:
  "onStack OutOfFuel = Throw RangeError"
  "onStack (Throw e) = Throw e"
  "onStack (Return v) = Return v"
  by (simp_all add: onStack_def)













text \<open>The same on any shorter stack, and for a chain of any length the grid has room for.\<close>

lemma chain_read_overflows:
  assumes "0 < m" "m < 26000" "L \<le> m"
  shows "onStack (cellValue L (chainGrid m) \<lparr>raw = ''=A1''\<rparr>) = Throw RangeError"
proof -
  from assms have "cellValue L (chainGrid m) \<lparr>raw = refText (cellAt (Suc 0))\<rparr> = OutOfFuel"
    by (intro chain_value_overflow) simp_all
  then show ?thesis by (simp add: chain_head)
qed


lemma committed_gridWithA1: "committed 26 1000 (gridWithA1 ''=B1'')"
  using committed_onBlur[OF committed_init gridWithA1_committed] .


text \<open>
  A reference to a row outside the grid: \<open>newValue\<close> alone can write one, and reading
  the cell then throws a TypeError.
\<close>

lemma reference_outside_grid_throws:
  "newValue (makeMatrix 26 1000) \<lparr>x = 0, y = 1\<rparr> ''=A1000'' = Return (gridWithA1 ''=A1000'') \<and>
   lookupCell (gridWithA1 ''=A1000'') \<lparr>x = 0, y = 1\<rparr> = Return (Occupied \<lparr>raw = ''=A1000''\<rparr>) \<and>
   cellValue 1 (gridWithA1 ''=A1000'') \<lparr>raw = ''=A1000''\<rparr> = Throw TypeError \<and>
   lookupCell (gridWithA1 ''=A1000'') \<lparr>x = 0, y = 1000\<rparr> = Throw TypeError"
  by code_simp

text \<open>The edit handler does not commit that text: its cycle check throws first.\<close>

lemma reference_outside_grid_not_committed:
  "onBlur n (makeMatrix 26 1000) \<lparr>x = 0, y = 1\<rparr> ''=A1000'' \<noteq> Return r"
proof -
  have d: "dependencies (parseCellContents ''=A1000'') = [\<lparr>x = 0, y = 1000\<rparr>]" by code_simp
  have "hasLoop n (makeMatrix 26 1000) \<lparr>x = 0, y = 1\<rparr> \<lparr>x = 0, y = 1000\<rparr> \<in> {OutOfFuel, Throw TypeError}"
    by (cases n) (simp_all add: lookupCell_def makeMatrix_def)
  then show ?thesis by (auto simp: onBlur_def hasDependencyCycle_def d)
qed

theorem cycle_check_terminates_witness:
  "acyclic (dependsOn (gridWithA1 ''=B1'')) \<and>
   hasDependencyCycle (Suc (card (occupied (gridWithA1 ''=B1'')))) (gridWithA1 ''=B1'')
     \<lparr>x = 1, y = 1\<rparr> ''=A1'' \<noteq> OutOfFuel"
proof -
  have a: "acyclic (dependsOn (gridWithA1 ''=B1''))"
    using committed_invariant[OF committed_gridWithA1] by (rule conjunct2[THEN conjunct2])
  from cycle_check_terminates[OF a, of "\<lparr>x = 1, y = 1\<rparr>" "''=A1''"] a
  show ?thesis by (intro conjI) (rule a, erule conjunct1)
qed




text \<open>The direct self-reference: \<open>=A1\<close> written into A1.\<close>

lemma direct_self_reference_detected:
  "hasDependencyCycle 1 (makeMatrix 26 1000) \<lparr>x = 0, y = 1\<rparr> ''=A1'' = Return True"
  by code_simp

text \<open>The check on a chain deeper than the stack.\<close>

lemma chain_check_overflows:
  assumes "m < 25999" "L \<le> m"
  shows "onStack (hasDependencyCycle L (chainGrid m) (cellAt 25999) ''=A0'') = Throw RangeError"
proof -
  have d: "dependencies (parseCellContents ''=A0'') = [cellAt 0]"
    unfolding chain_head by code_simp
  from assms have "hasLoop L (chainGrid m) (cellAt 25999) (cellAt 0) = OutOfFuel"
    by (intro chain_check_overflow) simp_all
  then show ?thesis unfolding hasDependencyCycle_def d by (simp del: hasLoop.simps)
qed

end
